theory Spec2Isabelle
  imports Main "HOL-Library.Sublist"
begin

section \<open>Python strings\<close>

text \<open>
  A Python \<open>str\<close> is a sequence of code points and \<open>len\<close> counts code points. The model
  is \<open>string\<close>, one \<open>char\<close> per code point, which covers the code points below 256
  (ASCII and Latin-1). On that range the tables below are the ones of CPython:
  \<open>str.isspace\<close> holds of U+0009..U+000D, U+001C..U+0020, U+0085 and U+00A0, and
  \<open>str.lower\<close> adds 32 to A..Z and to U+00C0..U+00DE except U+00D7.
\<close>

definition isspace :: "char \<Rightarrow> bool" where
  "isspace c =
     (let n = (of_char c :: nat)
      in (9 \<le> n \<and> n \<le> 13) \<or> (28 \<le> n \<and> n \<le> 32) \<or> n = 133 \<or> n = 160)"

text \<open>\<open>s.strip()\<close>: drop the leading whitespace, then the trailing whitespace.\<close>

definition strip :: "string \<Rightarrow> string" where
  "strip s = rev (dropWhile isspace (rev (dropWhile isspace s)))"

definition lower_char :: "char \<Rightarrow> char" where
  "lower_char c =
     (let n = (of_char c :: nat)
      in if (65 \<le> n \<and> n \<le> 90) \<or> (192 \<le> n \<and> n \<le> 222 \<and> n \<noteq> 215)
         then char_of (n + 32) else c)"

text \<open>\<open>s.lower()\<close>.\<close>

definition lower :: "string \<Rightarrow> string" where
  "lower s = map lower_char s"

text \<open>\<open>s.startswith(p)\<close>.\<close>

definition startswith :: "string \<Rightarrow> string \<Rightarrow> bool" where
  "startswith s p = prefix p s"

text \<open>\<open>sub in s\<close> on strings: \<open>sub\<close> occurs in \<open>s\<close> as a contiguous run.\<close>

definition str_contains :: "string \<Rightarrow> string \<Rightarrow> bool" where
  "str_contains s sub = sublist sub s"

text \<open>Truth value of a string (\<open>if s\<close>), and of \<open>d.get(k)\<close>, which is \<open>None\<close> or a string.\<close>

definition truthy :: "string option \<Rightarrow> bool" where
  "truthy v = (case v of None \<Rightarrow> False | Some s \<Rightarrow> s \<noteq> [])"

section \<open>Python dictionaries and exceptions\<close>

datatype py_error = AttributeError | KeyError | ParserRejectedMarkup

text \<open>\<open>d.get(k, default)\<close> never raises; \<open>d[k]\<close> raises \<open>KeyError\<close> on a missing key.\<close>

definition dict_get :: "('k \<rightharpoonup> 'v) \<Rightarrow> 'k \<Rightarrow> 'v \<Rightarrow> 'v" where
  "dict_get d k dflt = (case d k of Some v \<Rightarrow> v | None \<Rightarrow> dflt)"

definition dict_index :: "('k \<rightharpoonup> 'v) \<Rightarrow> 'k \<Rightarrow> py_error + 'v" where
  "dict_index d k = (case d k of Some v \<Rightarrow> Inr v | None \<Rightarrow> Inl KeyError)"

section \<open>URL normalizer\<close>

text \<open>
  \<^verbatim>\<open>
  def normalize_url(url: str) -> str:
      url = url.strip()
      if not url.startswith("http://") and not url.startswith("https://"):
          url = "https://" + url
      return url
  \<close>
\<close>

definition normalize_url :: "string \<Rightarrow> string" where
  "normalize_url url0 =
     (let url = strip url0
      in if \<not> startswith url ''http://'' \<and> \<not> startswith url ''https://''
         then ''https://'' @ url
         else url)"

section \<open>The parsed document\<close>

text \<open>
  \<open>BeautifulSoup(html, "html.parser")\<close> is a library call; the extractor only queries its
  result with \<open>find\<close>, \<open>get\<close> and \<open>.string\<close>. A parsed document is modelled by what these
  queries see: its tags in document order, each with its (lower-cased) name, its attribute
  dictionary, and its \<open>.string\<close> (the single text child, \<open>None\<close> when there is none).
  Attribute values are the strings of the markup (html.parser gives a valueless attribute
  the value \<open>""\<close>); \<open>rel\<close> is a multi-valued attribute, which the library splits at
  whitespace.

  The call itself can raise: html.parser rejects some markup (an unknown marked section
  such as \<open><![foo[x]]>\<close>), and the library raises \<open>ParserRejectedMarkup\<close>. A parser is
  therefore a function from the page text to an exception or a document.
\<close>

record tag =
  tag_name :: string
  tag_attrs :: "string \<rightharpoonup> string"
  tag_string :: "string option"

type_synonym soup = "tag list"

type_synonym parser = "string \<Rightarrow> py_error + soup"

text \<open>\<open>soup.find(name, ...)\<close>: the first tag in document order with that name that the
  attribute filter accepts, or \<open>None\<close>.\<close>

definition find_tag :: "soup \<Rightarrow> string \<Rightarrow> (tag \<Rightarrow> bool) \<Rightarrow> tag option" where
  "find_tag soup nm flt = List.find (\<lambda>t. tag_name t = nm \<and> flt t) soup"

text \<open>The filter \<open>attrs={key: value}\<close> on a single-valued attribute: the tag has the
  attribute and its value is equal to \<open>value\<close>.\<close>

definition attr_is :: "string \<Rightarrow> string \<Rightarrow> tag \<Rightarrow> bool" where
  "attr_is key val t = (tag_attrs t key = Some val)"

text \<open>The values of a multi-valued attribute: the maximal runs of non-whitespace.\<close>

fun split_ws :: "string \<Rightarrow> string list" where
  "split_ws [] = []"
| "split_ws (c # cs) =
     (if isspace c then split_ws cs
      else (case split_ws cs of
              [] \<Rightarrow> [[c]]
            | w # ws \<Rightarrow> (if cs \<noteq> [] \<and> \<not> isspace (hd cs) then (c # w) # ws else [c] # w # ws)))"

fun join_space :: "string list \<Rightarrow> string" where
  "join_space [] = []"
| "join_space [w] = w"
| "join_space (w # ws) = w @ '' '' @ join_space ws"

text \<open>The filter \<open>rel=value\<close>: one of the values is \<open>value\<close>, or the values joined by single
  spaces are.\<close>

definition rel_is :: "string \<Rightarrow> tag \<Rightarrow> bool" where
  "rel_is val t =
     (case tag_attrs t ''rel'' of
        None \<Rightarrow> False
      | Some raw \<Rightarrow> (let vs = split_ws raw in val \<in> set vs \<or> join_space vs = val))"

section \<open>Metadata extractor\<close>

text \<open>
  \<^verbatim>\<open>
  def get_meta_by_name(name):
      tag = soup.find("meta", attrs={"name": name})
      return tag.get("content", "").strip() if tag and tag.get("content") else ""
  \<close>
  A tag object is always true, so \<open>tag and ...\<close> tests \<open>tag is not None\<close>.
\<close>

definition get_meta_by_name :: "soup \<Rightarrow> string \<Rightarrow> string" where
  "get_meta_by_name soup nm =
     (let tag = find_tag soup ''meta'' (attr_is ''name'' nm)
      in case tag of
           Some t \<Rightarrow>
             (if truthy (tag_attrs t ''content'')
              then strip (dict_get (tag_attrs t) ''content'' '''')
              else '''')
         | None \<Rightarrow> '''')"

text \<open>
  \<^verbatim>\<open>
  def get_meta_by_property(prop):
      tag = soup.find("meta", attrs={"property": prop})
      if not tag:
          tag = soup.find("meta", attrs={"name": prop})
      return tag.get("content", "").strip() if tag and tag.get("content") else ""
  \<close>
\<close>

definition get_meta_by_property :: "soup \<Rightarrow> string \<Rightarrow> string" where
  "get_meta_by_property soup prop =
     (let tag = find_tag soup ''meta'' (attr_is ''property'' prop);
          tag = (if tag = None then find_tag soup ''meta'' (attr_is ''name'' prop) else tag)
      in case tag of
           Some t \<Rightarrow>
             (if truthy (tag_attrs t ''content'')
              then strip (dict_get (tag_attrs t) ''content'' '''')
              else '''')
         | None \<Rightarrow> '''')"

text \<open>
  \<^verbatim>\<open>
  def get_link_rel(rel):
      tag = soup.find("link", rel=rel)
      return tag.get("href", "").strip() if tag and tag.get("href") else ""
  \<close>
\<close>

definition get_link_rel :: "soup \<Rightarrow> string \<Rightarrow> string" where
  "get_link_rel soup rel =
     (let tag = find_tag soup ''link'' (rel_is rel)
      in case tag of
           Some t \<Rightarrow>
             (if truthy (tag_attrs t ''href'')
              then strip (dict_get (tag_attrs t) ''href'' '''')
              else '''')
         | None \<Rightarrow> '''')"

text \<open>
  \<open>title = soup.title.string.strip() if soup.title and soup.title.string else ""\<close>, where
  \<open>soup.title\<close> is \<open>soup.find("title")\<close>.
\<close>

definition get_title :: "soup \<Rightarrow> string" where
  "get_title soup =
     (case find_tag soup ''title'' (\<lambda>t. True) of
        Some t \<Rightarrow>
          (case tag_string t of
             Some s \<Rightarrow> (if s \<noteq> [] then strip s else '''')
           | None \<Rightarrow> '''')
      | None \<Rightarrow> '''')"

type_synonym meta = "string \<rightharpoonup> string"

text \<open>
  \<open>extract_meta_tags(html, url)\<close>: \<open>html_parser\<close> stands for
  \<open>BeautifulSoup(_, "html.parser")\<close>; an exception it raises at line 17 leaves the
  function. The dictionary literal is built key by key; the subscript \<open>meta["og:url"]\<close> of
  the fallback can raise \<open>KeyError\<close>.
\<close>

definition extract_meta_tags :: "parser \<Rightarrow> string \<Rightarrow> string \<Rightarrow> py_error + meta" where
  "extract_meta_tags html_parser html url =
     (case html_parser html of
        Inl e \<Rightarrow> Inl e
      | Inr soup \<Rightarrow>
          (let title = get_title soup;
               meta = Map.empty
                 (''title'' \<mapsto> title,
                  ''description'' \<mapsto> get_meta_by_name soup ''description'',
                  ''robots'' \<mapsto> get_meta_by_name soup ''robots'',
                  ''canonical'' \<mapsto> get_link_rel soup ''canonical'',
                  ''og:title'' \<mapsto> get_meta_by_property soup ''og:title'',
                  ''og:description'' \<mapsto> get_meta_by_property soup ''og:description'',
                  ''og:image'' \<mapsto> get_meta_by_property soup ''og:image'',
                  ''og:url'' \<mapsto> get_meta_by_property soup ''og:url'',
                  ''og:type'' \<mapsto> get_meta_by_property soup ''og:type'',
                  ''twitter:card'' \<mapsto> get_meta_by_property soup ''twitter:card'',
                  ''twitter:title'' \<mapsto> get_meta_by_property soup ''twitter:title'',
                  ''twitter:description'' \<mapsto> get_meta_by_property soup ''twitter:description'',
                  ''twitter:image'' \<mapsto> get_meta_by_property soup ''twitter:image'')
           in case dict_index meta ''og:url'' of
                Inl e \<Rightarrow> Inl e
              | Inr v \<Rightarrow> Inr (if v = [] then meta(''og:url'' \<mapsto> url) else meta)))"

section \<open>Feedback generator\<close>

text \<open>
  A feedback item is the dictionary \<open>{"level": level, "message": message}\<close>. The levels
  are the source's strings. The message texts are English sentences (some with a dash outside
  Latin-1) whose wording carries no behaviour; a message is modelled by which sentence it
  is, together with the value the source formats into it: the length for the four
  "short"/"long" messages, the card type for the Twitter one.
\<close>

datatype message =
    MissingTitle
  | TitleShort nat
  | TitleLong nat
  | TitleGood
  | MissingDescription
  | DescriptionShort nat
  | DescriptionLong nat
  | DescriptionGood
  | RobotsNoindex
  | RobotsNofollow
  | NoRobots
  | MissingCanonical
  | CanonicalSet
  | OpenGraphIncomplete
  | OpenGraphPresent
  | OpenGraphImageMissing
  | OpenGraphImageSet
  | TwitterCardMissing
  | TwitterCardType string

record feedback_item =
  level :: string
  message :: message

type_synonym feedback = "feedback_item list"

text \<open>\<open>add(level, message)\<close> appends to the list \<open>feedback\<close>; the list is passed and
  returned.\<close>

definition add :: "string \<Rightarrow> message \<Rightarrow> feedback \<Rightarrow> feedback" where
  "add lvl msg fb = fb @ [\<lparr>level = lvl, message = msg\<rparr>]"

text \<open>
  \<open>generate_feedback\<close> is a sequence of seven blocks, each under its own comment in the
  source. Each block is one function from the feedback list so far to the list after it.

  Title checks (lines 67 to 76).
\<close>

definition title_checks :: "meta \<Rightarrow> feedback \<Rightarrow> feedback" where
  "title_checks meta fb =
     (let title = dict_get meta ''title'' ''''
      in if title = [] then add ''error'' MissingTitle fb
         else if length title < 30 then add ''warning'' (TitleShort (length title)) fb
         else if length title > 65 then add ''warning'' (TitleLong (length title)) fb
         else add ''ok'' TitleGood fb)"

text \<open>Description checks (lines 79 to 88).\<close>

definition description_checks :: "meta \<Rightarrow> feedback \<Rightarrow> feedback" where
  "description_checks meta fb =
     (let description = dict_get meta ''description'' ''''
      in if description = [] then add ''error'' MissingDescription fb
         else if length description < 50
           then add ''warning'' (DescriptionShort (length description)) fb
         else if length description > 170
           then add ''warning'' (DescriptionLong (length description)) fb
         else add ''ok'' DescriptionGood fb)"

text \<open>Robots (lines 91 to 98): two independent \<open>if\<close>s under \<open>if robots\<close>.\<close>

definition robots_checks :: "meta \<Rightarrow> feedback \<Rightarrow> feedback" where
  "robots_checks meta fb =
     (let robots = lower (dict_get meta ''robots'' '''')
      in if robots \<noteq> [] then
           (let fb = (if str_contains robots ''noindex''
                      then add ''warning'' RobotsNoindex fb else fb);
                fb = (if str_contains robots ''nofollow''
                      then add ''warning'' RobotsNofollow fb else fb)
            in fb)
         else add ''ok'' NoRobots fb)"

text \<open>Canonical (lines 101 to 104).\<close>

definition canonical_checks :: "meta \<Rightarrow> feedback \<Rightarrow> feedback" where
  "canonical_checks meta fb =
     (if \<not> truthy (meta ''canonical'') then add ''warning'' MissingCanonical fb
      else add ''ok'' CanonicalSet fb)"

text \<open>Open Graph (lines 107 to 115): title and description together, then the image.\<close>

definition og_text_checks :: "meta \<Rightarrow> feedback \<Rightarrow> feedback" where
  "og_text_checks meta fb =
     (if \<not> truthy (meta ''og:title'') \<or> \<not> truthy (meta ''og:description'')
      then add ''warning'' OpenGraphIncomplete fb
      else add ''ok'' OpenGraphPresent fb)"

definition og_image_checks :: "meta \<Rightarrow> feedback \<Rightarrow> feedback" where
  "og_image_checks meta fb =
     (if \<not> truthy (meta ''og:image'') then add ''warning'' OpenGraphImageMissing fb
      else add ''ok'' OpenGraphImageSet fb)"

text \<open>Twitter (lines 118 to 121). In the \<open>else\<close> branch the value is a non-empty string.\<close>

definition twitter_checks :: "meta \<Rightarrow> feedback \<Rightarrow> feedback" where
  "twitter_checks meta fb =
     (if \<not> truthy (meta ''twitter:card'') then add ''warning'' TwitterCardMissing fb
      else add ''ok'' (TwitterCardType (dict_get meta ''twitter:card'' '''')) fb)"

definition generate_feedback :: "meta \<Rightarrow> feedback" where
  "generate_feedback meta =
     (let feedback = [];
          feedback = title_checks meta feedback;
          feedback = description_checks meta feedback;
          feedback = robots_checks meta feedback;
          feedback = canonical_checks meta feedback;
          feedback = og_text_checks meta feedback;
          feedback = og_image_checks meta feedback;
          feedback = twitter_checks meta feedback
      in feedback)"

section \<open>The analyze operation\<close>

text \<open>
  The body of a JSON request, as \<open>request.get_json()\<close> returns it: an object is a Python
  dictionary.
\<close>

datatype json =
    JNull
  | JBool bool
  | JNum int
  | JStr string
  | JArr "json list"
  | JObj "string \<Rightarrow> json option"

text \<open>\<open>data.get(key, default)\<close>: only a dictionary has \<open>get\<close>.\<close>

definition json_get :: "json \<Rightarrow> string \<Rightarrow> json \<Rightarrow> py_error + json" where
  "json_get data key dflt =
     (case data of
        JObj d \<Rightarrow> Inr (dict_get d key dflt)
      | _ \<Rightarrow> Inl AttributeError)"

text \<open>\<open>v.strip()\<close>: only a string has \<open>strip\<close>.\<close>

definition json_strip :: "json \<Rightarrow> py_error + string" where
  "json_strip v = (case v of JStr s \<Rightarrow> Inr (strip s) | _ \<Rightarrow> Inl AttributeError)"

text \<open>
  The outside world of a request. \<open>fetch\<close> answers a URL with the page text, or with the
  text of the \<open>RequestException\<close> that \<open>requests.get\<close> or \<open>raise_for_status\<close> raises;
  \<open>html_parser\<close> is the document parser, which can raise, and \<open>urlparse\<close> the URL parser
  of the standard library. The state records every outbound request made, in order.
\<close>

record parsed_url =
  scheme :: string
  netloc :: string
  path :: string

record env =
  fetch :: "string \<Rightarrow> string + string"
  html_parser :: parser
  urlparse :: "string \<Rightarrow> parsed_url"

record world =
  requests_made :: "string list"

definition requests_get :: "env \<Rightarrow> string \<Rightarrow> world \<Rightarrow> (string + string) \<times> world" where
  "requests_get e url w = (fetch e url, w\<lparr>requests_made := requests_made w @ [url]\<rparr>)"

text \<open>A response is the \<open>jsonify\<close> body with its HTTP status (200 when the view gives
  none).\<close>

datatype body =
    ErrorBody string
  | ResultBody string string meta feedback

type_synonym response = "body \<times> nat"

text \<open>
  \<open>analyze()\<close> (lines 130 to 156). \<open>Inl\<close> is an exception that leaves the view.
\<close>

definition analyze :: "env \<Rightarrow> json \<Rightarrow> world \<Rightarrow> (py_error + response) \<times> world" where
  "analyze e data w =
     (case json_get data ''url'' (JStr '''') of
        Inl err \<Rightarrow> (Inl err, w)
      | Inr v \<Rightarrow>
          (case json_strip v of
             Inl err \<Rightarrow> (Inl err, w)
           | Inr url \<Rightarrow>
               if url = [] then (Inr (ErrorBody ''No URL provided.'', 400), w)
               else
                 (let url = normalize_url url;
                      (resp, w) = requests_get e url w
                  in case resp of
                       Inl exn \<Rightarrow> (Inr (ErrorBody (''Error fetching URL: '' @ exn), 400), w)
                     | Inr txt \<Rightarrow>
                         (case extract_meta_tags (html_parser e) txt url of
                            Inl err \<Rightarrow> (Inl err, w)
                          | Inr meta \<Rightarrow>
                              (let feedback = generate_feedback meta;
                                   parsed = urlparse e url;
                                   display_url = scheme parsed @ ''://'' @ netloc parsed @
                                     (if path parsed \<noteq> [] then path parsed else '''')
                               in (Inr (ResultBody url display_url meta feedback, 200), w))))))"

section \<open>Notions of the specification\<close>

text \<open>
  The specification speaks of trimming, of containing a directive case-insensitively and of
  severity rules. These are stated here in its own words, to be compared with what the code
  computes.

  A string is trimmed when it neither starts nor ends with whitespace; \<open>t\<close> is the trim of
  \<open>u\<close> when \<open>u\<close> is \<open>t\<close> with whitespace before and after it, and \<open>t\<close> is trimmed.
\<close>

definition is_trimmed :: "string \<Rightarrow> bool" where
  "is_trimmed t = (t = [] \<or> (\<not> isspace (hd t) \<and> \<not> isspace (last t)))"

definition trim_of :: "string \<Rightarrow> string \<Rightarrow> bool" where
  "trim_of u t =
     ((\<exists>l r. u = l @ t @ r \<and> list_all isspace l \<and> list_all isspace r) \<and> is_trimmed t)"

text \<open>\<open>s\<close> contains \<open>sub\<close> case-insensitively when some contiguous run of \<open>s\<close> differs from
  \<open>sub\<close> in letter case only.\<close>

definition contains_ignoring_case :: "string \<Rightarrow> string \<Rightarrow> bool" where
  "contains_ignoring_case s sub = (\<exists>w. sublist w s \<and> lower w = lower sub)"

text \<open>Rows 1 and 1a of the rule table: the severity of the title check.\<close>

definition title_rule :: "string \<Rightarrow> string" where
  "title_rule title =
     (if title = [] then ''error''
      else if length title < 30 then ''warning''
      else if length title > 65 then ''warning''
      else ''ok'')"

text \<open>Rows 2 and 2a: the severity of the description check.\<close>

definition description_rule :: "string \<Rightarrow> string" where
  "description_rule description =
     (if description = [] then ''error''
      else if length description < 50 then ''warning''
      else if length description > 170 then ''warning''
      else ''ok'')"

text \<open>The thirteen keys of a metadata record.\<close>

definition meta_keys :: "string set" where
  "meta_keys =
     {''title'', ''description'', ''robots'', ''canonical'',
      ''og:title'', ''og:description'', ''og:image'', ''og:url'', ''og:type'',
      ''twitter:card'', ''twitter:title'', ''twitter:description'', ''twitter:image''}"

text \<open>A meta element whose attribute \<open>key\<close> equals \<open>val\<close>.\<close>

definition meta_element_with :: "string \<Rightarrow> string \<Rightarrow> tag \<Rightarrow> bool" where
  "meta_element_with key val t = (tag_name t = ''meta'' \<and> tag_attrs t key = Some val)"

text \<open>\<open>t\<close> is the first tag of the document, in document order, that satisfies \<open>P\<close>.\<close>

definition first_in :: "soup \<Rightarrow> (tag \<Rightarrow> bool) \<Rightarrow> tag \<Rightarrow> bool" where
  "first_in soup P t = (\<exists>pre post. soup = pre @ t # post \<and> P t \<and> (\<forall>x\<in>set pre. \<not> P x))"

text \<open>The Open Graph and Twitter keys, which are looked up by property and then by name.\<close>

definition property_keys :: "string set" where
  "property_keys =
     {''og:title'', ''og:description'', ''og:image'', ''og:url'', ''og:type'',
      ''twitter:card'', ''twitter:title'', ''twitter:description'', ''twitter:image''}"

text \<open>The page has no tag for the key \<open>k\<close>: no title element, no meta element named \<open>k\<close>,
  no canonical link, or no meta element with \<open>k\<close> as its property or its name.\<close>

definition tag_absent :: "soup \<Rightarrow> string \<Rightarrow> bool" where
  "tag_absent soup k =
     (if k = ''title'' then (\<forall>t\<in>set soup. tag_name t \<noteq> ''title'')
      else if k = ''description'' \<or> k = ''robots''
        then (\<forall>t\<in>set soup. \<not> meta_element_with ''name'' k t)
      else if k = ''canonical''
        then (\<forall>t\<in>set soup. \<not> (tag_name t = ''link'' \<and> rel_is ''canonical'' t))
      else (\<forall>t\<in>set soup. \<not> meta_element_with ''property'' k t \<and>
                           \<not> meta_element_with ''name'' k t))"

section \<open>Trimming\<close>

lemma strip_decomp:
  "s = takeWhile isspace s @ strip s @ rev (takeWhile isspace (rev (dropWhile isspace s)))"
proof -
  let ?d = "dropWhile isspace s"
  have "?d = rev (dropWhile isspace (rev ?d)) @ rev (takeWhile isspace (rev ?d))"
    by (metis rev_append rev_rev_ident takeWhile_dropWhile_id)
  then have "?d = strip s @ rev (takeWhile isspace (rev ?d))"
    by (simp only: strip_def)
  moreover have "s = takeWhile isspace s @ ?d" by simp
  ultimately show ?thesis by simp
qed

lemma strip_last: "strip s \<noteq> [] \<Longrightarrow> \<not> isspace (last (strip s))"
  unfolding strip_def by (simp add: last_rev hd_dropWhile)

lemma strip_hd:
  assumes ne: "strip s \<noteq> []"
  shows "\<not> isspace (hd (strip s))"
proof -
  let ?d = "dropWhile isspace s"
  have d: "?d = strip s @ rev (takeWhile isspace (rev ?d))"
    using strip_decomp [of s] by (metis append_eq_append_conv takeWhile_dropWhile_id)
  with ne have "hd ?d = hd (strip s)" by (metis hd_append2)
  moreover from d ne have "?d \<noteq> []" by (metis append_is_Nil_conv)
  ultimately show ?thesis using hd_dropWhile [of isspace s] by simp
qed

lemma strip_is_trimmed: "is_trimmed (strip s)"
  unfolding is_trimmed_def using strip_hd strip_last by blast

lemma strip_trimmed_id:
  assumes "is_trimmed t"
  shows "strip t = t"
proof (cases "t = []")
  case True
  then show ?thesis by (simp add: strip_def)
next
  case False
  with assms have h: "\<not> isspace (hd t)" and l: "\<not> isspace (last t)"
    by (auto simp: is_trimmed_def)
  from False h have "dropWhile isspace t = t"
    by (cases t) auto
  moreover from False l have "dropWhile isspace (rev t) = rev t"
    by (cases "rev t") (auto simp: last_rev[symmetric] hd_rev)
  ultimately show ?thesis by (simp add: strip_def)
qed

lemma strip_trim_of: "trim_of u (strip u)"
  unfolding trim_of_def
proof (intro conjI exI)
  show "u = takeWhile isspace u @ strip u @ rev (takeWhile isspace (rev (dropWhile isspace u)))"
    by (rule strip_decomp)
  show "list_all isspace (takeWhile isspace u)"
    by (simp add: list_all_iff) (meson set_takeWhileD)
  show "list_all isspace (rev (takeWhile isspace (rev (dropWhile isspace u))))"
    by (simp add: list_all_iff) (meson set_takeWhileD)
  show "is_trimmed (strip u)" by (rule strip_is_trimmed)
qed

lemma strip_whitespace_around:
  assumes l: "list_all isspace l" and r: "list_all isspace r"
  shows "strip (l @ t @ r) = strip t"
proof -
  have 1: "dropWhile isspace (l @ t @ r) = dropWhile isspace (t @ r)"
    using l by (simp add: list_all_iff dropWhile_append2)
  show ?thesis
  proof (cases "list_all isspace t")
    case True
    with r have "dropWhile isspace (t @ r) = []" and b: "dropWhile isspace t = []"
      by (auto simp: list_all_iff)
    with 1 have a: "dropWhile isspace (l @ t @ r) = []" by (simp only:)
    show ?thesis unfolding strip_def a b by (rule refl)
  next
    case False
    then have "dropWhile isspace (t @ r) = dropWhile isspace t @ r"
      by (auto simp: list_all_iff dropWhile_append1)
    moreover from False have "dropWhile isspace t \<noteq> []"
      by (auto simp: list_all_iff)
    moreover have "dropWhile isspace (rev r @ xs) = dropWhile isspace xs" for xs
      using r by (intro dropWhile_append2) (simp add: list_all_iff)
    ultimately have "dropWhile isspace (rev (dropWhile isspace (l @ t @ r))) =
        dropWhile isspace (rev (dropWhile isspace t))"
      using 1 by (simp only: rev_append)
    then show ?thesis by (simp only: strip_def)
  qed
qed

lemma trim_of_unique:
  assumes "trim_of u t"
  shows "t = strip u"
proof -
  from assms obtain l r where u: "u = l @ t @ r"
    and lr: "list_all isspace l" "list_all isspace r" and t: "is_trimmed t"
    by (auto simp: trim_of_def)
  from u lr have "strip u = strip t" by (simp add: strip_whitespace_around)
  with t show ?thesis by (simp add: strip_trimmed_id)
qed

section \<open>The URL normalizer\<close>

lemma normalize_url_trimmed: "is_trimmed (normalize_url u)"
proof (cases "\<not> startswith (strip u) ''http://'' \<and> \<not> startswith (strip u) ''https://''")
  case False
  then show ?thesis by (auto simp: normalize_url_def Let_def strip_is_trimmed)
next
  case True
  have "is_trimmed (''https://'' @ strip u)"
    using strip_is_trimmed [of u]
    by (cases "strip u = []") (auto simp: is_trimmed_def isspace_def)
  with True show ?thesis by (simp add: normalize_url_def Let_def)
qed

lemma normalize_url_scheme:
  "startswith (normalize_url u) ''http://'' \<or> startswith (normalize_url u) ''https://''"
  by (auto simp: normalize_url_def Let_def startswith_def)

text \<open>
  C7. \<open>normalize_url\<close> is a total function on strings. Its result is determined by the trim
  \<open>t\<close> of the input (the input without its leading and trailing whitespace, which exists
  and is unique): the result is \<open>t\<close> itself when \<open>t\<close> begins with \<open>http://\<close> or with
  \<open>https://\<close>, and \<open>https://\<close> followed by \<open>t\<close> exactly when it begins with neither. So
  \<open>example.com\<close> becomes \<open>https://example.com\<close>, and \<open>http://x.com\<close> between two spaces
  becomes \<open>http://x.com\<close>.
\<close>

theorem normalize_url_trim_then_scheme:
  "(\<exists>t. trim_of u t \<and> (\<forall>t'. trim_of u t' \<longrightarrow> t' = t) \<and>
        normalize_url u =
          (if \<not> prefix ''http://'' t \<and> \<not> prefix ''https://'' t then ''https://'' @ t else t)) \<and>
   normalize_url ''example.com'' = ''https://example.com'' \<and>
   normalize_url '' http://x.com '' = ''http://x.com''"
proof (intro conjI)
  show "\<exists>t. trim_of u t \<and> (\<forall>t'. trim_of u t' \<longrightarrow> t' = t) \<and>
        normalize_url u =
          (if \<not> prefix ''http://'' t \<and> \<not> prefix ''https://'' t then ''https://'' @ t else t)"
  proof (intro exI [of _ "strip u"] conjI allI impI)
    show "trim_of u (strip u)" by (rule strip_trim_of)
    show "t' = strip u" if "trim_of u t'" for t' using that by (rule trim_of_unique)
    show "normalize_url u =
      (if \<not> prefix ''http://'' (strip u) \<and> \<not> prefix ''https://'' (strip u)
       then ''https://'' @ strip u else strip u)"
      by (simp add: normalize_url_def startswith_def)
  qed
  show "normalize_url ''example.com'' = ''https://example.com''"
    by (simp add: normalize_url_def strip_def startswith_def isspace_def)
  show "normalize_url '' http://x.com '' = ''http://x.com''"
    by (simp add: normalize_url_def strip_def startswith_def isspace_def)
qed

theorem normalize_url_trim_then_scheme_witness:
  "trim_of ''  HTTPS://a.b  '' ''HTTPS://a.b'' \<and>
   normalize_url ''  HTTPS://a.b  '' = ''https://HTTPS://a.b''"
proof -
  have t: "trim_of ''  HTTPS://a.b  '' ''HTTPS://a.b''"
    unfolding trim_of_def
  proof (intro conjI exI)
    show "''  HTTPS://a.b  '' = ''  '' @ ''HTTPS://a.b'' @ ''  ''" by simp
    show "list_all isspace ''  ''" "list_all isspace ''  ''" by (simp_all add: isspace_def)
    show "is_trimmed ''HTTPS://a.b''" by (simp add: is_trimmed_def isspace_def)
  qed
  from normalize_url_trim_then_scheme [of "''  HTTPS://a.b  ''"]
  obtain t0 where u: "\<forall>t'. trim_of ''  HTTPS://a.b  '' t' \<longrightarrow> t' = t0"
    and n: "normalize_url ''  HTTPS://a.b  '' =
      (if \<not> prefix ''http://'' t0 \<and> \<not> prefix ''https://'' t0 then ''https://'' @ t0 else t0)"
    by blast
  from u t have "t0 = ''HTTPS://a.b''" by blast
  with n have "normalize_url ''  HTTPS://a.b  '' = ''https://HTTPS://a.b''" by simp
  with t show ?thesis by simp
qed

text \<open>
  C8. Normalizing is idempotent: normalizing a normalized URL changes nothing.
\<close>

theorem normalize_url_idempotent: "normalize_url (normalize_url u) = normalize_url u"
proof -
  have "strip (normalize_url u) = normalize_url u"
    by (rule strip_trimmed_id [OF normalize_url_trimmed])
  then show ?thesis
    using normalize_url_scheme [of u]
    by (subst normalize_url_def) (auto simp: Let_def)
qed

section \<open>The feedback generator\<close>

lemma lower_Nil_iff: "lower s = [] \<longleftrightarrow> s = []"
  by (simp add: lower_def)

lemma lower_noindex: "lower ''noindex'' = ''noindex''"
  by (simp add: lower_def lower_char_def)

lemma lower_nofollow: "lower ''nofollow'' = ''nofollow''"
  by (simp add: lower_def lower_char_def)

lemma lower_both_directives: "lower ''noindex, nofollow'' = ''noindex, nofollow''"
  by code_simp

lemma contains_ignoring_case_lower:
  "contains_ignoring_case s sub = str_contains (lower s) (lower sub)"
proof
  assume "contains_ignoring_case s sub"
  then obtain w ps ss where "s = ps @ w @ ss" and "lower w = lower sub"
    by (auto simp: contains_ignoring_case_def sublist_def)
  then have "lower s = lower ps @ lower sub @ lower ss"
    by (simp add: lower_def)
  then show "str_contains (lower s) (lower sub)"
    unfolding str_contains_def sublist_def by blast
next
  assume "str_contains (lower s) (lower sub)"
  then obtain ps' ss' where "map lower_char s = ps' @ map lower_char sub @ ss'"
    by (auto simp: str_contains_def sublist_def lower_def)
  then obtain ps vs where s: "s = ps @ vs" and "map lower_char vs = map lower_char sub @ ss'"
    by (metis map_eq_append_conv)
  then obtain w ss where "vs = w @ ss" and "map lower_char w = map lower_char sub"
    by (metis map_eq_append_conv)
  with s have "s = ps @ w @ ss" and "map lower_char w = map lower_char sub"
    by simp_all
  then show "contains_ignoring_case s sub"
    unfolding contains_ignoring_case_def sublist_def lower_def by blast
qed

lemma title_checks_item:
  "title_checks meta fb = fb @ title_checks meta [] \<and> length (title_checks meta []) = 1"
  by (simp add: title_checks_def add_def Let_def)

lemma description_checks_item:
  "description_checks meta fb = fb @ description_checks meta [] \<and>
   length (description_checks meta []) = 1"
  by (simp add: description_checks_def add_def Let_def)

lemma robots_checks_items:
  "robots_checks meta fb = fb @ robots_checks meta [] \<and> length (robots_checks meta []) \<le> 2"
  by (simp add: robots_checks_def add_def Let_def)

lemma canonical_checks_item:
  "canonical_checks meta fb = fb @ canonical_checks meta [] \<and>
   length (canonical_checks meta []) = 1"
  by (simp add: canonical_checks_def add_def)

lemma og_text_checks_item:
  "og_text_checks meta fb = fb @ og_text_checks meta [] \<and> length (og_text_checks meta []) = 1"
  by (simp add: og_text_checks_def add_def)

lemma og_image_checks_item:
  "og_image_checks meta fb = fb @ og_image_checks meta [] \<and>
   length (og_image_checks meta []) = 1"
  by (simp add: og_image_checks_def add_def)

lemma twitter_checks_item:
  "twitter_checks meta fb = fb @ twitter_checks meta [] \<and> length (twitter_checks meta []) = 1"
  by (simp add: twitter_checks_def add_def)

lemma generate_feedback_blocks:
  "generate_feedback meta =
     title_checks meta [] @ description_checks meta [] @ robots_checks meta [] @
     canonical_checks meta [] @ og_text_checks meta [] @ og_image_checks meta [] @
     twitter_checks meta []"
proof -
  have "generate_feedback meta =
      twitter_checks meta (og_image_checks meta (og_text_checks meta (canonical_checks meta
        (robots_checks meta (description_checks meta (title_checks meta []))))))"
    by (simp add: generate_feedback_def)
  also have "\<dots> = title_checks meta [] @ description_checks meta [] @ robots_checks meta [] @
     canonical_checks meta [] @ og_text_checks meta [] @ og_image_checks meta [] @
     twitter_checks meta []"
    by (subst twitter_checks_item [THEN conjunct1], subst og_image_checks_item [THEN conjunct1],
        subst og_text_checks_item [THEN conjunct1], subst canonical_checks_item [THEN conjunct1],
        subst robots_checks_items [THEN conjunct1], subst description_checks_item [THEN conjunct1])
      simp
  finally show ?thesis .
qed

lemma title_checks_level:
  "\<exists>msg. title_checks meta [] =
     [\<lparr>level = title_rule (dict_get meta ''title'' ''''), message = msg\<rparr>]"
  by (simp add: title_checks_def title_rule_def add_def Let_def)

lemma description_checks_level:
  "\<exists>msg. description_checks meta [] =
     [\<lparr>level = description_rule (dict_get meta ''description'' ''''), message = msg\<rparr>]"
  by (simp add: description_checks_def description_rule_def add_def Let_def)

text \<open>
  C1. For every metadata record the title check appends exactly one item to the feedback,
  and it is the first item of the generated list. Its severity follows the title rule:
  \<open>error\<close> for an empty (or missing) title, otherwise \<open>warning\<close> for a length below 30,
  \<open>warning\<close> for a length above 65, and \<open>ok\<close> in between. Titles of 30 and of 65
  characters are \<open>ok\<close>; titles of 29 and of 66 characters get a \<open>warning\<close>.
\<close>

theorem title_check_severity:
  "(\<exists>msg. title_checks meta fb =
       fb @ [\<lparr>level = title_rule (dict_get meta ''title'' ''''), message = msg\<rparr>] \<and>
     take 1 (generate_feedback meta) =
       [\<lparr>level = title_rule (dict_get meta ''title'' ''''), message = msg\<rparr>]) \<and>
   (length t = 30 \<or> length t = 65 \<longrightarrow> title_rule t = ''ok'') \<and>
   (length t = 29 \<or> length t = 66 \<longrightarrow> title_rule t = ''warning'')"
proof (intro conjI)
  obtain msg where m: "title_checks meta [] =
      [\<lparr>level = title_rule (dict_get meta ''title'' ''''), message = msg\<rparr>]"
    using title_checks_level by blast
  have "title_checks meta fb = fb @ title_checks meta []"
    using title_checks_item by blast
  moreover have "take 1 (generate_feedback meta) = title_checks meta []"
    by (simp add: generate_feedback_blocks m)
  ultimately show "\<exists>msg. title_checks meta fb =
       fb @ [\<lparr>level = title_rule (dict_get meta ''title'' ''''), message = msg\<rparr>] \<and>
     take 1 (generate_feedback meta) =
       [\<lparr>level = title_rule (dict_get meta ''title'' ''''), message = msg\<rparr>]"
    using m by auto
  show "length t = 30 \<or> length t = 65 \<longrightarrow> title_rule t = ''ok''"
    by (auto simp: title_rule_def)
  show "length t = 29 \<or> length t = 66 \<longrightarrow> title_rule t = ''warning''"
    by (auto simp: title_rule_def)
qed

theorem title_check_severity_witness:
  "map level (title_checks [''title'' \<mapsto> ''abcdefghijklmnopqrstuvwxyz0123''] []) = [''ok''] \<and>
   map level (take 1 (generate_feedback [''title'' \<mapsto> ''abcdefghijklmnopqrstuvwxyz0123''])) = [''ok''] \<and>
   length ''abcdefghijklmnopqrstuvwxyz0123'' = 30 \<and>
   title_rule ''abcdefghijklmnopqrstuvwxyz0123'' = ''ok'' \<and>
   length ''abcdefghijklmnopqrstuvwxyz012'' = 29 \<and>
   title_rule ''abcdefghijklmnopqrstuvwxyz012'' = ''warning''"
  using title_check_severity [of "[''title'' \<mapsto> ''abcdefghijklmnopqrstuvwxyz0123'']" "[]"
      "''abcdefghijklmnopqrstuvwxyz0123''"]
    title_check_severity [of "[''title'' \<mapsto> ''abcdefghijklmnopqrstuvwxyz0123'']" "[]"
      "''abcdefghijklmnopqrstuvwxyz012''"]
  by (auto simp: dict_get_def)

text \<open>
  C2. For every metadata record the description check appends exactly one item, the second
  of the generated list. Its severity follows the description rule: \<open>error\<close> for an empty
  description, otherwise \<open>warning\<close> below 50 characters, \<open>warning\<close> above 170, and \<open>ok\<close>
  from 50 to 170 inclusive. The upper threshold is 170: lengths 161 to 170 are \<open>ok\<close>, and
  171 is the first length that is too long.
\<close>

theorem description_check_severity:
  "(\<exists>msg. description_checks meta fb =
       fb @ [\<lparr>level = description_rule (dict_get meta ''description'' ''''), message = msg\<rparr>] \<and>
     take 1 (drop 1 (generate_feedback meta)) =
       [\<lparr>level = description_rule (dict_get meta ''description'' ''''), message = msg\<rparr>]) \<and>
   (length d = 49 \<or> length d = 171 \<longrightarrow> description_rule d = ''warning'') \<and>
   (50 \<le> length d \<and> length d \<le> 170 \<longrightarrow> description_rule d = ''ok'')"
proof (intro conjI)
  obtain msg where m: "description_checks meta [] =
      [\<lparr>level = description_rule (dict_get meta ''description'' ''''), message = msg\<rparr>]"
    using description_checks_level by blast
  have "description_checks meta fb = fb @ description_checks meta []"
    using description_checks_item by blast
  moreover have "length (title_checks meta []) = 1"
    using title_checks_item by blast
  then have "take 1 (drop 1 (generate_feedback meta)) = description_checks meta []"
    by (simp add: generate_feedback_blocks m)
  ultimately show "\<exists>msg. description_checks meta fb =
       fb @ [\<lparr>level = description_rule (dict_get meta ''description'' ''''), message = msg\<rparr>] \<and>
     take 1 (drop 1 (generate_feedback meta)) =
       [\<lparr>level = description_rule (dict_get meta ''description'' ''''), message = msg\<rparr>]"
    using m by auto
  show "length d = 49 \<or> length d = 171 \<longrightarrow> description_rule d = ''warning''"
    by (auto simp: description_rule_def)
  show "50 \<le> length d \<and> length d \<le> 170 \<longrightarrow> description_rule d = ''ok''"
    by (auto simp: description_rule_def)
qed

theorem description_check_severity_witness:
  "map level (description_checks [''description'' \<mapsto> replicate 165 CHR ''d''] []) = [''ok''] \<and>
   length (replicate 165 CHR ''d'') = 165 \<and>
   description_rule (replicate 165 CHR ''d'') = ''ok'' \<and>
   length (replicate 171 CHR ''d'') = 171 \<and>
   description_rule (replicate 171 CHR ''d'') = ''warning''"
  using description_check_severity [of "[''description'' \<mapsto> replicate 165 CHR ''d'']" "[]"
      "replicate 165 CHR ''d''"]
    description_check_severity [of "[''description'' \<mapsto> replicate 165 CHR ''d'']" "[]"
      "replicate 171 CHR ''d''"]
  by (auto simp: dict_get_def)

lemma robots_checks_alone:
  "robots_checks meta [] =
     (if dict_get meta ''robots'' '''' = [] then [\<lparr>level = ''ok'', message = NoRobots\<rparr>]
      else (if contains_ignoring_case (dict_get meta ''robots'' '''') ''noindex''
            then [\<lparr>level = ''warning'', message = RobotsNoindex\<rparr>] else []) @
           (if contains_ignoring_case (dict_get meta ''robots'' '''') ''nofollow''
            then [\<lparr>level = ''warning'', message = RobotsNofollow\<rparr>] else []))"
  by (simp add: robots_checks_def add_def Let_def lower_Nil_iff
      contains_ignoring_case_lower lower_noindex lower_nofollow)

text \<open>
  C3. For every metadata record the robots check appends, after the title and description
  items: a single \<open>ok\<close> item when the robots value is empty; otherwise a \<open>warning\<close> when
  the value contains \<open>noindex\<close> case-insensitively, followed, independently, by a
  \<open>warning\<close> when it contains \<open>nofollow\<close> case-insensitively. The value
  \<open>noindex, nofollow\<close> gives exactly the two warnings, noindex first.
\<close>

theorem robots_check_directives:
  "robots_checks meta fb = fb @
     (if dict_get meta ''robots'' '''' = [] then [\<lparr>level = ''ok'', message = NoRobots\<rparr>]
      else (if contains_ignoring_case (dict_get meta ''robots'' '''') ''noindex''
            then [\<lparr>level = ''warning'', message = RobotsNoindex\<rparr>] else []) @
           (if contains_ignoring_case (dict_get meta ''robots'' '''') ''nofollow''
            then [\<lparr>level = ''warning'', message = RobotsNofollow\<rparr>] else [])) \<and>
   prefix (robots_checks meta []) (drop 2 (generate_feedback meta)) \<and>
   (meta ''robots'' = Some ''noindex, nofollow'' \<longrightarrow>
      robots_checks meta [] =
        [\<lparr>level = ''warning'', message = RobotsNoindex\<rparr>,
         \<lparr>level = ''warning'', message = RobotsNofollow\<rparr>])"
proof (intro conjI impI)
  show "robots_checks meta fb = fb @
     (if dict_get meta ''robots'' '''' = [] then [\<lparr>level = ''ok'', message = NoRobots\<rparr>]
      else (if contains_ignoring_case (dict_get meta ''robots'' '''') ''noindex''
            then [\<lparr>level = ''warning'', message = RobotsNoindex\<rparr>] else []) @
           (if contains_ignoring_case (dict_get meta ''robots'' '''') ''nofollow''
            then [\<lparr>level = ''warning'', message = RobotsNofollow\<rparr>] else []))"
    using robots_checks_items [of meta fb] by (simp only: robots_checks_alone)
  obtain t d where "title_checks meta [] = [t]" "description_checks meta [] = [d]"
    using title_checks_level description_checks_level by blast
  then have "drop 2 (generate_feedback meta) =
      robots_checks meta [] @ canonical_checks meta [] @ og_text_checks meta [] @
      og_image_checks meta [] @ twitter_checks meta []"
    by (simp add: generate_feedback_blocks)
  then show "prefix (robots_checks meta []) (drop 2 (generate_feedback meta))"
    by simp
  assume "meta ''robots'' = Some ''noindex, nofollow''"
  then show "robots_checks meta [] =
        [\<lparr>level = ''warning'', message = RobotsNoindex\<rparr>,
         \<lparr>level = ''warning'', message = RobotsNofollow\<rparr>]"
    by (simp add: robots_checks_alone dict_get_def contains_ignoring_case_lower
        lower_noindex lower_nofollow lower_both_directives str_contains_def sublist_code)
qed

theorem robots_check_directives_witness:
  "robots_checks [''robots'' \<mapsto> ''noindex, nofollow''] [] =
     [\<lparr>level = ''warning'', message = RobotsNoindex\<rparr>,
      \<lparr>level = ''warning'', message = RobotsNofollow\<rparr>] \<and>
   robots_checks [''robots'' \<mapsto> ''NoFollow''] [] =
     [\<lparr>level = ''warning'', message = RobotsNofollow\<rparr>]"
proof -
  have h: "[''robots'' \<mapsto> ''noindex, nofollow''] ''robots'' = Some ''noindex, nofollow''"
    by simp
  have c: "\<not> contains_ignoring_case ''NoFollow'' ''noindex''"
    "contains_ignoring_case ''NoFollow'' ''nofollow''"
  proof -
    have l: "lower ''NoFollow'' = ''nofollow''" by code_simp
    show "\<not> contains_ignoring_case ''NoFollow'' ''noindex''"
      by (simp add: contains_ignoring_case_lower str_contains_def l lower_noindex sublist_code)
    show "contains_ignoring_case ''NoFollow'' ''nofollow''"
      by (simp add: contains_ignoring_case_lower str_contains_def l lower_nofollow sublist_code)
  qed
  from robots_check_directives [of "[''robots'' \<mapsto> ''noindex, nofollow'']" "[]"] h
  have "robots_checks [''robots'' \<mapsto> ''noindex, nofollow''] [] =
     [\<lparr>level = ''warning'', message = RobotsNoindex\<rparr>,
      \<lparr>level = ''warning'', message = RobotsNofollow\<rparr>]"
    by blast
  moreover from robots_check_directives [of "[''robots'' \<mapsto> ''NoFollow'']" "[]"] c
  have "robots_checks [''robots'' \<mapsto> ''NoFollow''] [] =
     [\<lparr>level = ''warning'', message = RobotsNofollow\<rparr>]"
    by (simp add: dict_get_def)
  ultimately show ?thesis by (rule conjI)
qed

text \<open>
  C10. The generated list has between 6 and 8 items. It is the title item, the description
  item, the robots items, then the canonical, Open Graph text, Open Graph image and Twitter
  card items: each of those six checks appends exactly one item, and the robots check
  appends at most two. When the robots value is non-empty and contains neither \<open>noindex\<close>
  nor \<open>nofollow\<close>, the robots check appends nothing.
\<close>

theorem feedback_item_count:
  "\<exists>t d r c g i w.
     generate_feedback meta = [t, d] @ r @ [c, g, i, w] \<and>
     title_checks meta fb = fb @ [t] \<and>
     description_checks meta fb = fb @ [d] \<and>
     robots_checks meta fb = fb @ r \<and>
     canonical_checks meta fb = fb @ [c] \<and>
     og_text_checks meta fb = fb @ [g] \<and>
     og_image_checks meta fb = fb @ [i] \<and>
     twitter_checks meta fb = fb @ [w] \<and>
     length r \<le> 2 \<and>
     (dict_get meta ''robots'' '''' \<noteq> [] \<and>
      \<not> contains_ignoring_case (dict_get meta ''robots'' '''') ''noindex'' \<and>
      \<not> contains_ignoring_case (dict_get meta ''robots'' '''') ''nofollow'' \<longrightarrow> r = []) \<and>
     6 \<le> length (generate_feedback meta) \<and> length (generate_feedback meta) \<le> 8"
proof -
  obtain t where t: "title_checks meta [] = [t]"
    using title_checks_level by blast
  obtain d where d: "description_checks meta [] = [d]"
    using description_checks_level by blast
  obtain c where c: "canonical_checks meta [] = [c]"
    using canonical_checks_item [of meta "[]"] by (auto simp: length_Suc_conv)
  obtain g where g: "og_text_checks meta [] = [g]"
    using og_text_checks_item [of meta "[]"] by (auto simp: length_Suc_conv)
  obtain i where i: "og_image_checks meta [] = [i]"
    using og_image_checks_item [of meta "[]"] by (auto simp: length_Suc_conv)
  obtain w where w: "twitter_checks meta [] = [w]"
    using twitter_checks_item [of meta "[]"] by (auto simp: length_Suc_conv)
  let ?r = "robots_checks meta []"
  have gf: "generate_feedback meta = [t, d] @ ?r @ [c, g, i, w]"
    by (simp add: generate_feedback_blocks t d c g i w)
  have r2: "length ?r \<le> 2"
    using robots_checks_items by blast
  have silent: "dict_get meta ''robots'' '''' \<noteq> [] \<and>
      \<not> contains_ignoring_case (dict_get meta ''robots'' '''') ''noindex'' \<and>
      \<not> contains_ignoring_case (dict_get meta ''robots'' '''') ''nofollow'' \<longrightarrow> ?r = []"
    by (simp add: robots_checks_alone)
  have len: "6 \<le> length (generate_feedback meta) \<and> length (generate_feedback meta) \<le> 8"
    using r2 by (simp add: gf)
  have "title_checks meta fb = fb @ [t]"
    using title_checks_item [of meta fb] by (simp only: t)
  moreover have "description_checks meta fb = fb @ [d]"
    using description_checks_item [of meta fb] by (simp only: d)
  moreover have "robots_checks meta fb = fb @ ?r"
    using robots_checks_items [of meta fb] by blast
  moreover have "canonical_checks meta fb = fb @ [c]"
    using canonical_checks_item [of meta fb] by (simp only: c)
  moreover have "og_text_checks meta fb = fb @ [g]"
    using og_text_checks_item [of meta fb] by (simp only: g)
  moreover have "og_image_checks meta fb = fb @ [i]"
    using og_image_checks_item [of meta fb] by (simp only: i)
  moreover have "twitter_checks meta fb = fb @ [w]"
    using twitter_checks_item [of meta fb] by (simp only: w)
  ultimately show ?thesis
    using gf r2 silent len by blast
qed

theorem feedback_item_count_witness:
  "robots_checks [''robots'' \<mapsto> ''index, follow''] [] = [] \<and>
   length (generate_feedback [''robots'' \<mapsto> ''index, follow'']) = 6"
proof -
  let ?m = "[''robots'' \<mapsto> ''index, follow'']"
  have l: "lower ''index, follow'' = ''index, follow''" by code_simp
  have h: "dict_get ?m ''robots'' '''' \<noteq> [] \<and>
      \<not> contains_ignoring_case (dict_get ?m ''robots'' '''') ''noindex'' \<and>
      \<not> contains_ignoring_case (dict_get ?m ''robots'' '''') ''nofollow''"
    by (simp add: dict_get_def contains_ignoring_case_lower str_contains_def l
        lower_noindex lower_nofollow sublist_code)
  from feedback_item_count [of ?m "[]"] h
  obtain t d r c g i w where "generate_feedback ?m = [t, d] @ r @ [c, g, i, w]"
    and "robots_checks ?m [] = [] @ r" and "r = []"
    by blast
  then show ?thesis by simp
qed

section \<open>The metadata extractor\<close>

lemma strip_Nil: "strip [] = []"
  by (simp add: strip_def)

lemma content_or_empty:
  "(if truthy (tag_attrs t key) then strip (dict_get (tag_attrs t) key '''') else '''') =
   strip (dict_get (tag_attrs t) key '''')"
  by (auto simp: truthy_def dict_get_def strip_Nil split: option.splits)

lemma find_first_in: "List.find P xs = Some t \<longleftrightarrow> first_in xs P t"
proof (induction xs)
  case Nil
  then show ?case by (simp add: first_in_def)
next
  case (Cons x xs)
  show ?case
  proof (cases "P x")
    case True
    have "first_in (x # xs) P t \<longleftrightarrow> x = t"
    proof
      assume "first_in (x # xs) P t"
      then obtain pre post where e: "x # xs = pre @ t # post" and n: "\<forall>y\<in>set pre. \<not> P y"
        by (auto simp: first_in_def)
      with True show "x = t" by (cases pre) auto
    next
      assume "x = t"
      with True have "x # xs = [] @ t # xs \<and> P t \<and> (\<forall>y\<in>set []. \<not> P y)" by simp
      then show "first_in (x # xs) P t" unfolding first_in_def by blast
    qed
    with True show ?thesis by auto
  next
    case False
    have "first_in (x # xs) P t \<longleftrightarrow> first_in xs P t"
    proof
      assume "first_in (x # xs) P t"
      then obtain pre post where e: "x # xs = pre @ t # post" and t: "P t"
        and n: "\<forall>y\<in>set pre. \<not> P y"
        by (auto simp: first_in_def)
      from e t False obtain pre' where "pre = x # pre'" by (cases pre) auto
      with e n t have "xs = pre' @ t # post \<and> P t \<and> (\<forall>y\<in>set pre'. \<not> P y)" by simp
      then show "first_in xs P t" unfolding first_in_def by blast
    next
      assume "first_in xs P t"
      then obtain pre post where "xs = pre @ t # post" "P t" "\<forall>y\<in>set pre. \<not> P y"
        by (auto simp: first_in_def)
      with False have "x # xs = (x # pre) @ t # post \<and> P t \<and> (\<forall>y\<in>set (x # pre). \<not> P y)"
        by simp
      then show "first_in (x # xs) P t" unfolding first_in_def by blast
    qed
    with False Cons.IH show ?thesis by simp
  qed
qed

lemma find_tag_meta_Some:
  "find_tag soup ''meta'' (attr_is key val) = Some t \<longleftrightarrow>
   first_in soup (meta_element_with key val) t"
proof -
  have "(\<lambda>t. tag_name t = ''meta'' \<and> attr_is key val t) = meta_element_with key val"
    by (rule ext) (simp add: meta_element_with_def attr_is_def)
  then show ?thesis by (simp add: find_tag_def find_first_in)
qed

lemma find_tag_meta_None:
  "find_tag soup ''meta'' (attr_is key val) = None \<longleftrightarrow>
   (\<forall>x\<in>set soup. \<not> meta_element_with key val x)"
  by (auto simp: find_tag_def find_None_iff meta_element_with_def attr_is_def)

lemma by_property_first:
  assumes "first_in soup (meta_element_with ''property'' prop) t"
  shows "get_meta_by_property soup prop = strip (dict_get (tag_attrs t) ''content'' '''')"
  using assms
  by (simp add: get_meta_by_property_def find_tag_meta_Some [symmetric] content_or_empty)

lemma by_property_fallback:
  assumes "\<forall>x\<in>set soup. \<not> meta_element_with ''property'' prop x"
    and "first_in soup (meta_element_with ''name'' prop) t"
  shows "get_meta_by_property soup prop = strip (dict_get (tag_attrs t) ''content'' '''')"
  using assms
  by (simp add: get_meta_by_property_def find_tag_meta_Some [symmetric]
      find_tag_meta_None [symmetric] content_or_empty)

lemma by_property_absent:
  assumes "\<forall>x\<in>set soup. \<not> meta_element_with ''property'' prop x \<and>
      \<not> meta_element_with ''name'' prop x"
  shows "get_meta_by_property soup prop = ''''"
proof -
  from assms have "find_tag soup ''meta'' (attr_is ''property'' prop) = None"
    and "find_tag soup ''meta'' (attr_is ''name'' prop) = None"
    by (simp_all add: find_tag_meta_None)
  then show ?thesis by (simp add: get_meta_by_property_def)
qed

lemma find_tag_no_such_name:
  assumes "\<forall>t\<in>set soup. tag_name t \<noteq> nm"
  shows "find_tag soup nm flt = None"
  using assms by (auto simp: find_tag_def find_None_iff)


text \<open>An exception of the parser leaves \<open>extract_meta_tags\<close>; a record comes only from a
  parsed document.\<close>

lemma extract_meta_tags_parse_error:
  assumes "parse html = Inl e"
  shows "extract_meta_tags parse html url = Inl e"
  using assms by (simp add: extract_meta_tags_def)

lemma extract_meta_tags_parsed:
  assumes "extract_meta_tags parse html url = Inr m"
  shows "\<exists>soup. parse html = Inr soup"
  using assms by (cases "parse html") (simp_all add: extract_meta_tags_def)

lemma extract_meta_tags_result:
  assumes "parse html = Inr soup"
  shows "\<exists>m. extract_meta_tags parse html url = Inr m \<and>
     dom m = meta_keys \<and>
     m ''title'' = Some (get_title soup) \<and>
     m ''description'' = Some (get_meta_by_name soup ''description'') \<and>
     m ''robots'' = Some (get_meta_by_name soup ''robots'') \<and>
     m ''canonical'' = Some (get_link_rel soup ''canonical'') \<and>
     m ''og:title'' = Some (get_meta_by_property soup ''og:title'') \<and>
     m ''og:description'' = Some (get_meta_by_property soup ''og:description'') \<and>
     m ''og:image'' = Some (get_meta_by_property soup ''og:image'') \<and>
     m ''og:url'' = Some (if get_meta_by_property soup ''og:url'' = [] then url
                          else get_meta_by_property soup ''og:url'') \<and>
     m ''og:type'' = Some (get_meta_by_property soup ''og:type'') \<and>
     m ''twitter:card'' = Some (get_meta_by_property soup ''twitter:card'') \<and>
     m ''twitter:title'' = Some (get_meta_by_property soup ''twitter:title'') \<and>
     m ''twitter:description'' = Some (get_meta_by_property soup ''twitter:description'') \<and>
     m ''twitter:image'' = Some (get_meta_by_property soup ''twitter:image'')"
  using assms
  by (auto simp: extract_meta_tags_def dict_index_def Let_def meta_keys_def)

lemma property_key_value:
  assumes "k \<in> property_keys - {''og:url''}" and "parse html = Inr soup"
  shows "\<exists>m. extract_meta_tags parse html url = Inr m \<and>
    m k = Some (get_meta_by_property soup k)"
  using assms extract_meta_tags_result [of parse html soup url]
  by (auto simp: property_keys_def)

text \<open>
  The value is not the content attribute as it stands. For the single tag
  \<open><meta property="og:title" content=" A ">\<close> the content attribute is \<open>A\<close> between two
  spaces, and the lookup gives \<open>A\<close> without them.
\<close>

theorem content_verbatim_counterexample:
  "meta_element_with ''property'' ''og:title''
     \<lparr>tag_name = ''meta'',
      tag_attrs = [''property'' \<mapsto> ''og:title'', ''content'' \<mapsto> '' A ''],
      tag_string = None\<rparr> \<and>
   tag_attrs
     \<lparr>tag_name = ''meta'',
      tag_attrs = [''property'' \<mapsto> ''og:title'', ''content'' \<mapsto> '' A ''],
      tag_string = None\<rparr> ''content'' = Some '' A '' \<and>
   get_meta_by_property
     [\<lparr>tag_name = ''meta'',
       tag_attrs = [''property'' \<mapsto> ''og:title'', ''content'' \<mapsto> '' A ''],
       tag_string = None\<rparr>] ''og:title'' = ''A'' \<and>
   ''A'' \<noteq> '' A ''"
  by (simp add: meta_element_with_def get_meta_by_property_def find_tag_def attr_is_def
      truthy_def dict_get_def strip_def isspace_def)

text \<open>
  C4 (the value is trimmed). For every document and field name, the property-then-name
  lookup gives the content attribute, with leading and trailing whitespace removed, of the
  first meta element whose \<open>property\<close> attribute equals the field name (the empty string
  when that element has no content attribute); only when no meta element has that
  \<open>property\<close> attribute does it give, in the same way, the content of the first meta
  element whose \<open>name\<close> attribute equals the field name; when neither exists it gives the
  empty string. Whenever the parser returns a document for the page, extraction returns a
  record in which every Open Graph or Twitter key other than \<open>og:url\<close> has the value
  looked up in that document. A page parsed as the single tag
  \<open><meta property="og:title" content="A">\<close> has \<open>og:title\<close> equal to \<open>A\<close>, and a page
  parsed as the single tag \<open><meta name="og:title" content="B">\<close> has it equal to \<open>B\<close>.
\<close>

theorem property_then_name_lookup:
  "(first_in soup (meta_element_with ''property'' prop) t \<longrightarrow>
      get_meta_by_property soup prop = strip (dict_get (tag_attrs t) ''content'' '''')) \<and>
   ((\<forall>x\<in>set soup. \<not> meta_element_with ''property'' prop x) \<and>
    first_in soup (meta_element_with ''name'' prop) t \<longrightarrow>
      get_meta_by_property soup prop = strip (dict_get (tag_attrs t) ''content'' '''')) \<and>
   ((\<forall>x\<in>set soup. \<not> meta_element_with ''property'' prop x \<and>
                    \<not> meta_element_with ''name'' prop x) \<longrightarrow>
      get_meta_by_property soup prop = '''') \<and>
   (k \<in> property_keys - {''og:url''} \<and> parse html = Inr doc \<longrightarrow>
      (\<exists>m. extract_meta_tags parse html url = Inr m \<and>
           m k = Some (get_meta_by_property doc k))) \<and>
   (parse html =
      Inr [\<lparr>tag_name = ''meta'',
        tag_attrs = [''property'' \<mapsto> ''og:title'', ''content'' \<mapsto> ''A''],
        tag_string = None\<rparr>] \<longrightarrow>
      (\<exists>m. extract_meta_tags parse html url = Inr m \<and> m ''og:title'' = Some ''A'')) \<and>
   (parse html =
      Inr [\<lparr>tag_name = ''meta'',
        tag_attrs = [''name'' \<mapsto> ''og:title'', ''content'' \<mapsto> ''B''],
        tag_string = None\<rparr>] \<longrightarrow>
      (\<exists>m. extract_meta_tags parse html url = Inr m \<and> m ''og:title'' = Some ''B''))"
proof (intro conjI impI)
  show "get_meta_by_property soup prop = strip (dict_get (tag_attrs t) ''content'' '''')"
    if "first_in soup (meta_element_with ''property'' prop) t"
    using that by (rule by_property_first)
  show "get_meta_by_property soup prop = strip (dict_get (tag_attrs t) ''content'' '''')"
    if "(\<forall>x\<in>set soup. \<not> meta_element_with ''property'' prop x) \<and>
      first_in soup (meta_element_with ''name'' prop) t"
    using that by (simp add: by_property_fallback)
  show "get_meta_by_property soup prop = ''''"
    if "\<forall>x\<in>set soup. \<not> meta_element_with ''property'' prop x \<and>
      \<not> meta_element_with ''name'' prop x"
    using that by (rule by_property_absent)
  show "\<exists>m. extract_meta_tags parse html url = Inr m \<and>
      m k = Some (get_meta_by_property doc k)"
    if "k \<in> property_keys - {''og:url''} \<and> parse html = Inr doc"
    using that by (simp add: property_key_value)
  have og: "\<exists>m. extract_meta_tags parse html url = Inr m \<and>
      m ''og:title'' = Some (get_meta_by_property d ''og:title'')"
    if "parse html = Inr d" for d
    using that property_key_value [of "''og:title''" parse html d url]
    by (simp add: property_keys_def)
  show "\<exists>m. extract_meta_tags parse html url = Inr m \<and> m ''og:title'' = Some ''A''"
    if "parse html =
      Inr [\<lparr>tag_name = ''meta'',
        tag_attrs = [''property'' \<mapsto> ''og:title'', ''content'' \<mapsto> ''A''],
        tag_string = None\<rparr>]"
  proof -
    have "get_meta_by_property
        [\<lparr>tag_name = ''meta'',
          tag_attrs = [''property'' \<mapsto> ''og:title'', ''content'' \<mapsto> ''A''],
          tag_string = None\<rparr>] ''og:title'' = ''A''"
      by (simp add: get_meta_by_property_def find_tag_def attr_is_def
          truthy_def dict_get_def strip_def isspace_def)
    with og [of _] that show ?thesis by auto
  qed
  show "\<exists>m. extract_meta_tags parse html url = Inr m \<and> m ''og:title'' = Some ''B''"
    if "parse html =
      Inr [\<lparr>tag_name = ''meta'',
        tag_attrs = [''name'' \<mapsto> ''og:title'', ''content'' \<mapsto> ''B''],
        tag_string = None\<rparr>]"
  proof -
    have "get_meta_by_property
        [\<lparr>tag_name = ''meta'',
          tag_attrs = [''name'' \<mapsto> ''og:title'', ''content'' \<mapsto> ''B''],
          tag_string = None\<rparr>] ''og:title'' = ''B''"
      by (simp add: get_meta_by_property_def find_tag_def attr_is_def
          truthy_def dict_get_def strip_def isspace_def)
    with og [of _] that show ?thesis by auto
  qed
qed

theorem property_then_name_lookup_witness:
  "get_meta_by_property
     [\<lparr>tag_name = ''meta'', tag_attrs = [''name'' \<mapsto> ''og:title'', ''content'' \<mapsto> ''B''],
       tag_string = None\<rparr>,
      \<lparr>tag_name = ''meta'',
       tag_attrs = [''property'' \<mapsto> ''og:title'', ''content'' \<mapsto> '' A ''],
       tag_string = None\<rparr>] ''og:title'' = ''A'' \<and>
   get_meta_by_property
     [\<lparr>tag_name = ''meta'', tag_attrs = [''name'' \<mapsto> ''og:title'', ''content'' \<mapsto> ''B''],
       tag_string = None\<rparr>] ''og:title'' = ''B'' \<and>
   get_meta_by_property [] ''og:title'' = '''' \<and>
   (\<exists>m. extract_meta_tags
          (\<lambda>h. Inr [\<lparr>tag_name = ''meta'',
        tag_attrs = [''property'' \<mapsto> ''og:title'', ''content'' \<mapsto> ''A''],
        tag_string = None\<rparr>])
          ''<meta property=og:title content=A>'' ''https://a.com/'' = Inr m \<and>
        m ''og:title'' = Some ''A'')"
proof -
  let ?b = "\<lparr>tag_name = ''meta'', tag_attrs = [''name'' \<mapsto> ''og:title'', ''content'' \<mapsto> ''B''],
       tag_string = None\<rparr>"
  let ?a = "\<lparr>tag_name = ''meta'',
       tag_attrs = [''property'' \<mapsto> ''og:title'', ''content'' \<mapsto> '' A ''],
       tag_string = None\<rparr>"
  let ?p = "\<lambda>h::string. Inr [\<lparr>tag_name = ''meta'',
        tag_attrs = [''property'' \<mapsto> ''og:title'', ''content'' \<mapsto> ''A''],
        tag_string = None\<rparr>] :: py_error + soup"
  have 1: "first_in [?b, ?a] (meta_element_with ''property'' ''og:title'') ?a"
    by (simp add: find_first_in [symmetric] meta_element_with_def)
  have 2: "(\<forall>x\<in>set [?b]. \<not> meta_element_with ''property'' ''og:title'' x) \<and>
      first_in [?b] (meta_element_with ''name'' ''og:title'') ?b"
    by (simp add: find_first_in [symmetric] meta_element_with_def)
  have 3: "\<forall>x\<in>set []. \<not> meta_element_with ''property'' ''og:title'' x \<and>
      \<not> meta_element_with ''name'' ''og:title'' x"
    by simp
  have s: "strip '' A '' = ''A''" "strip ''B'' = ''B''"
    by (simp_all add: strip_def isspace_def)
  from property_then_name_lookup [of "[?b, ?a]" "''og:title''" ?a] 1
  have "get_meta_by_property [?b, ?a] ''og:title'' = ''A''"
    by (simp add: dict_get_def s)
  moreover from property_then_name_lookup [of "[?b]" "''og:title''" ?b] 2
  have "get_meta_by_property [?b] ''og:title'' = ''B''"
    by (simp add: dict_get_def s)
  moreover from property_then_name_lookup [of "[]" "''og:title''"] 3
  have "get_meta_by_property [] ''og:title'' = ''''"
    by blast
  moreover from property_then_name_lookup [of _ _ _ _ ?p
      "''<meta property=og:title content=A>''" _ "''https://a.com/''"]
  have "\<exists>m. extract_meta_tags ?p ''<meta property=og:title content=A>''
      ''https://a.com/'' = Inr m \<and> m ''og:title'' = Some ''A''"
    by blast
  ultimately show ?thesis by blast
qed

text \<open>
  C5. Whenever the parser returns a document for the page, extraction returns a record
  whose \<open>og:url\<close> is the resolved URL when the property-then-name lookup of \<open>og:url\<close>
  gives the empty string, and the looked-up value otherwise; and every record that
  extraction returns has this \<open>og:url\<close>, for the document the page was parsed to. A page
  with no \<open>og:url\<close> meta element, requested as \<open>https://a.com/\<close>, has \<open>og:url\<close> equal to
  \<open>https://a.com/\<close>.
\<close>

theorem og_url_falls_back_to_request_url:
  "(parse html = Inr soup \<longrightarrow>
      (\<exists>m. extract_meta_tags parse html url = Inr m \<and>
         m ''og:url'' =
           Some (if get_meta_by_property soup ''og:url'' = [] then url
                 else get_meta_by_property soup ''og:url'') \<and>
         ((\<forall>x\<in>set soup. \<not> meta_element_with ''property'' ''og:url'' x \<and>
                          \<not> meta_element_with ''name'' ''og:url'' x) \<longrightarrow>
            m ''og:url'' = Some url))) \<and>
   (extract_meta_tags parse html url = Inr r \<longrightarrow>
      (\<exists>doc. parse html = Inr doc \<and>
         r ''og:url'' =
           Some (if get_meta_by_property doc ''og:url'' = [] then url
                 else get_meta_by_property doc ''og:url'')))"
proof (intro conjI impI)
  assume p: "parse html = Inr soup"
  with extract_meta_tags_result [of parse html soup url]
  obtain m where m: "extract_meta_tags parse html url = Inr m"
    and u: "m ''og:url'' =
       Some (if get_meta_by_property soup ''og:url'' = [] then url
             else get_meta_by_property soup ''og:url'')"
    by blast
  have "m ''og:url'' = Some url"
    if "\<forall>x\<in>set soup. \<not> meta_element_with ''property'' ''og:url'' x \<and>
      \<not> meta_element_with ''name'' ''og:url'' x"
    using by_property_absent [OF that] u by simp
  with m u show "\<exists>m. extract_meta_tags parse html url = Inr m \<and>
         m ''og:url'' =
           Some (if get_meta_by_property soup ''og:url'' = [] then url
                 else get_meta_by_property soup ''og:url'') \<and>
         ((\<forall>x\<in>set soup. \<not> meta_element_with ''property'' ''og:url'' x \<and>
                          \<not> meta_element_with ''name'' ''og:url'' x) \<longrightarrow>
            m ''og:url'' = Some url)"
    by blast
next
  assume r: "extract_meta_tags parse html url = Inr r"
  then obtain doc where d: "parse html = Inr doc"
    using extract_meta_tags_parsed by blast
  with extract_meta_tags_result [of parse html doc url] r
  have "r ''og:url'' =
       Some (if get_meta_by_property doc ''og:url'' = [] then url
             else get_meta_by_property doc ''og:url'')"
    by auto
  with d show "\<exists>doc. parse html = Inr doc \<and>
         r ''og:url'' =
           Some (if get_meta_by_property doc ''og:url'' = [] then url
                 else get_meta_by_property doc ''og:url'')"
    by blast
qed

theorem og_url_falls_back_to_request_url_witness:
  "\<exists>m. extract_meta_tags
          (\<lambda>h. Inr [\<lparr>tag_name = ''title'', tag_attrs = Map.empty, tag_string = Some ''Hi''\<rparr>])
          ''<title>Hi</title>'' ''https://a.com/'' = Inr m \<and>
       m ''og:url'' = Some ''https://a.com/''"
proof -
  let ?d = "[\<lparr>tag_name = ''title'', tag_attrs = Map.empty, tag_string = Some ''Hi''\<rparr>]"
  let ?p = "\<lambda>h::string. Inr ?d :: py_error + soup"
  have p: "?p ''<title>Hi</title>'' = Inr ?d"
    by simp
  have h: "\<forall>x\<in>set ?d.
      \<not> meta_element_with ''property'' ''og:url'' x \<and> \<not> meta_element_with ''name'' ''og:url'' x"
    by (simp add: meta_element_with_def)
  from og_url_falls_back_to_request_url [of ?p "''<title>Hi</title>''" ?d "''https://a.com/''"]
    p h
  show ?thesis by blast
qed

lemma card_meta_keys: "card meta_keys = 13"
  by (simp add: meta_keys_def)

lemma absent_title:
  assumes "\<forall>t\<in>set soup. tag_name t \<noteq> ''title''"
  shows "get_title soup = ''''"
  using assms by (simp add: get_title_def find_tag_no_such_name)

lemma absent_by_name:
  assumes "\<forall>t\<in>set soup. \<not> meta_element_with ''name'' k t"
  shows "get_meta_by_name soup k = ''''"
proof -
  from assms have "find_tag soup ''meta'' (attr_is ''name'' k) = None"
    by (simp add: find_tag_meta_None)
  then show ?thesis by (simp add: get_meta_by_name_def)
qed

lemma absent_link_rel:
  assumes "\<forall>t\<in>set soup. \<not> (tag_name t = ''link'' \<and> rel_is rel t)"
  shows "get_link_rel soup rel = ''''"
proof -
  from assms have "find_tag soup ''link'' (rel_is rel) = None"
    by (auto simp: find_tag_def find_None_iff)
  then show ?thesis by (simp add: get_link_rel_def)
qed

lemma absent_key_default:
  assumes p: "parse html = Inr soup"
    and m: "extract_meta_tags parse html url = Inr m"
    and k: "k \<in> meta_keys" and a: "tag_absent soup k"
  shows "m k = Some (if k = ''og:url'' then url else '''')"
proof -
  from extract_meta_tags_result [of parse html soup url] p m
  have v: "m ''title'' = Some (get_title soup)"
     "m ''description'' = Some (get_meta_by_name soup ''description'')"
     "m ''robots'' = Some (get_meta_by_name soup ''robots'')"
     "m ''canonical'' = Some (get_link_rel soup ''canonical'')"
     "m ''og:title'' = Some (get_meta_by_property soup ''og:title'')"
     "m ''og:description'' = Some (get_meta_by_property soup ''og:description'')"
     "m ''og:image'' = Some (get_meta_by_property soup ''og:image'')"
     "m ''og:url'' = Some (if get_meta_by_property soup ''og:url'' = [] then url
                          else get_meta_by_property soup ''og:url'')"
     "m ''og:type'' = Some (get_meta_by_property soup ''og:type'')"
     "m ''twitter:card'' = Some (get_meta_by_property soup ''twitter:card'')"
     "m ''twitter:title'' = Some (get_meta_by_property soup ''twitter:title'')"
     "m ''twitter:description'' = Some (get_meta_by_property soup ''twitter:description'')"
     "m ''twitter:image'' = Some (get_meta_by_property soup ''twitter:image'')"
    by auto
  have "k = ''title'' \<or> (k = ''description'' \<or> k = ''robots'') \<or> k = ''canonical'' \<or>
      k \<in> property_keys"
    using k by (simp add: meta_keys_def property_keys_def)
  then consider "k = ''title''" | "k = ''description'' \<or> k = ''robots''" | "k = ''canonical''"
    | "k \<in> property_keys"
    by blast
  then show ?thesis
  proof cases
    case 1
    with a have "get_title soup = ''''"
      by (simp add: tag_absent_def absent_title)
    with 1 v(1) show ?thesis by simp
  next
    case 2
    then have "k \<noteq> ''title''" "k \<noteq> ''og:url''" by auto
    with a 2 have "get_meta_by_name soup k = ''''"
      by (simp add: tag_absent_def absent_by_name)
    with 2 v(2,3) show ?thesis by auto
  next
    case 3
    with a have "get_link_rel soup ''canonical'' = ''''"
      by (simp add: tag_absent_def absent_link_rel)
    with 3 v(4) show ?thesis by simp
  next
    case 4
    then have n: "k \<noteq> ''title''" "k \<noteq> ''description''" "k \<noteq> ''robots''"
      "k \<noteq> ''canonical''"
      by (auto simp: property_keys_def)
    with a have "\<forall>t\<in>set soup. \<not> meta_element_with ''property'' k t \<and>
        \<not> meta_element_with ''name'' k t"
      by (simp add: tag_absent_def)
    then have e: "get_meta_by_property soup k = ''''"
      by (rule by_property_absent)
    from 4 have "m k = Some (if get_meta_by_property soup k = [] \<and> k = ''og:url'' then url
        else get_meta_by_property soup k)"
      unfolding property_keys_def using v(5-13) by (elim insertE emptyE) simp_all
    with e show ?thesis by simp
  qed
qed

text \<open>
  C6. There are thirteen fixed keys. Every record that extraction returns, for every page
  and resolved URL, has exactly these keys, each mapped to a string: no key is ever
  missing. The record belongs to a document the page was parsed to, and every key whose
  tag is absent from that document is the empty string, but for \<open>og:url\<close>, which is then
  the resolved URL. Whenever the parser returns a document, extraction does return a
  record; it returns none only when the parser raises.
\<close>

theorem metadata_record_has_all_keys:
  "card meta_keys = 13 \<and>
   (extract_meta_tags parse html url = Inr m \<longrightarrow>
      dom m = meta_keys \<and>
      (\<exists>doc. parse html = Inr doc \<and>
         (\<forall>k\<in>meta_keys. tag_absent doc k \<longrightarrow>
            m k = Some (if k = ''og:url'' then url else '''')))) \<and>
   (parse html = Inr soup \<longrightarrow> (\<exists>r. extract_meta_tags parse html url = Inr r)) \<and>
   (parse html = Inl e \<longrightarrow> extract_meta_tags parse html url = Inl e)"
proof (intro conjI impI)
  show "card meta_keys = 13" by (rule card_meta_keys)
  show "\<exists>r. extract_meta_tags parse html url = Inr r" if "parse html = Inr soup"
    using that extract_meta_tags_result [of parse html soup url] by blast
  show "extract_meta_tags parse html url = Inl e" if "parse html = Inl e"
    using that by (rule extract_meta_tags_parse_error)
  assume m: "extract_meta_tags parse html url = Inr m"
  then obtain doc where d: "parse html = Inr doc"
    using extract_meta_tags_parsed by blast
  with extract_meta_tags_result [of parse html doc url] m
  show "dom m = meta_keys" by auto
  have "\<forall>k\<in>meta_keys. tag_absent doc k \<longrightarrow> m k = Some (if k = ''og:url'' then url else '''')"
    using absent_key_default [of parse html doc url m] d m by blast
  with d show "\<exists>doc. parse html = Inr doc \<and>
      (\<forall>k\<in>meta_keys. tag_absent doc k \<longrightarrow> m k = Some (if k = ''og:url'' then url else ''''))"
    by blast
qed

theorem metadata_record_has_all_keys_witness:
  "\<exists>m. extract_meta_tags
          (\<lambda>h. Inr [\<lparr>tag_name = ''title'', tag_attrs = Map.empty, tag_string = Some ''Hi''\<rparr>])
          ''<title>Hi</title>'' ''https://a.com/'' = Inr m \<and>
       dom m = meta_keys \<and> m ''title'' = Some ''Hi'' \<and> m ''description'' = Some '''' \<and>
       m ''canonical'' = Some '''' \<and> m ''twitter:image'' = Some '''' \<and>
       m ''og:url'' = Some ''https://a.com/''"
proof -
  let ?d = "[\<lparr>tag_name = ''title'', tag_attrs = Map.empty, tag_string = Some ''Hi''\<rparr>]"
  let ?p = "\<lambda>h::string. Inr ?d :: py_error + soup"
  have p: "?p ''<title>Hi</title>'' = Inr ?d" by simp
  from metadata_record_has_all_keys [of ?p "''<title>Hi</title>''" "''https://a.com/''" _ ?d] p
  obtain m where m: "extract_meta_tags ?p ''<title>Hi</title>'' ''https://a.com/'' = Inr m"
    by blast
  have t: "m ''title'' = Some ''Hi''"
    using m by (auto simp: extract_meta_tags_def dict_index_def Let_def get_title_def
        find_tag_def truthy_def strip_def isspace_def split: if_splits)
  have k: "''description'' \<in> meta_keys" "''canonical'' \<in> meta_keys"
    "''twitter:image'' \<in> meta_keys" "''og:url'' \<in> meta_keys"
    by (simp_all add: meta_keys_def)
  have a: "tag_absent ?d ''description''" "tag_absent ?d ''canonical''"
    "tag_absent ?d ''twitter:image''" "tag_absent ?d ''og:url''"
    by (simp_all add: tag_absent_def meta_element_with_def)
  from metadata_record_has_all_keys [of ?p "''<title>Hi</title>''" "''https://a.com/''" m] m
  obtain doc where "dom m = meta_keys" and "?p ''<title>Hi</title>'' = Inr doc"
    and "\<forall>k\<in>meta_keys. tag_absent doc k \<longrightarrow>
      m k = Some (if k = ''og:url'' then ''https://a.com/'' else '''')"
    by blast
  with k a have "dom m = meta_keys" "m ''description'' = Some ''''" "m ''canonical'' = Some ''''"
    "m ''twitter:image'' = Some ''''" "m ''og:url'' = Some ''https://a.com/''"
    by auto
  with m t show ?thesis by blast
qed

section \<open>The analyze operation: empty input\<close>

text \<open>A request with a URL does reach the network: the log grows by the normalized URL.\<close>

lemma analyze_fetches_when_url_given:
  assumes "d ''url'' = Some (JStr s)" and "strip s \<noteq> []"
  shows "requests_made (snd (analyze e (JObj d) w)) =
    requests_made w @ [normalize_url (strip s)]"
  using assms
  by (simp add: analyze_def json_get_def json_strip_def dict_get_def requests_get_def Let_def
      split: sum.splits)

text \<open>
  C9. When the body's \<open>url\<close> field is missing, or is a string that is empty after
  trimming, \<open>analyze\<close> answers with the error body \<open>No URL provided.\<close> and status 400, a
  client error, and leaves the world as it was: no outbound request is made, whatever the
  fetch function would have answered.
\<close>

theorem analyze_empty_url_no_fetch:
  assumes "d ''url'' = None \<or> (\<exists>s. d ''url'' = Some (JStr s) \<and> strip s = [])"
  shows "\<exists>msg status.
    analyze e (JObj d) w = (Inr (ErrorBody msg, status), w) \<and>
    msg = ''No URL provided.'' \<and> status = 400 \<and> status div 100 = 4 \<and>
    requests_made (snd (analyze e (JObj d) w)) = requests_made w"
proof -
  have "strip '''' = ''''" by (simp add: strip_def)
  with assms have "analyze e (JObj d) w = (Inr (ErrorBody ''No URL provided.'', 400), w)"
    by (auto simp: analyze_def json_get_def json_strip_def dict_get_def)
  then show ?thesis by simp
qed

theorem analyze_empty_url_no_fetch_witness:
  "analyze
     \<lparr>fetch = \<lambda>u. Inr ''<title>Hi</title>'',
      html_parser = \<lambda>h. Inr [\<lparr>tag_name = ''title'', tag_attrs = Map.empty, tag_string = Some ''Hi''\<rparr>],
      urlparse = \<lambda>u. \<lparr>scheme = ''https'', netloc = ''a.com'', path = ''/''\<rparr>\<rparr>
     (JObj [''url'' \<mapsto> JStr '' ''])
     \<lparr>requests_made = []\<rparr> =
   (Inr (ErrorBody ''No URL provided.'', 400), \<lparr>requests_made = []\<rparr>) \<and>
   analyze
     \<lparr>fetch = \<lambda>u. Inr ''<title>Hi</title>'',
      html_parser = \<lambda>h. Inr [\<lparr>tag_name = ''title'', tag_attrs = Map.empty, tag_string = Some ''Hi''\<rparr>],
      urlparse = \<lambda>u. \<lparr>scheme = ''https'', netloc = ''a.com'', path = ''/''\<rparr>\<rparr>
     (JObj Map.empty)
     \<lparr>requests_made = []\<rparr> =
   (Inr (ErrorBody ''No URL provided.'', 400), \<lparr>requests_made = []\<rparr>)"
proof -
  have 1: "[''url'' \<mapsto> JStr '' ''] ''url'' = None \<or>
      (\<exists>s. [''url'' \<mapsto> JStr '' ''] ''url'' = Some (JStr s) \<and> strip s = [])"
    by (simp add: strip_def isspace_def)
  have 2: "(Map.empty :: string \<rightharpoonup> json) ''url'' = None \<or>
      (\<exists>s. (Map.empty :: string \<rightharpoonup> json) ''url'' = Some (JStr s) \<and> strip s = [])"
    by simp
  show ?thesis
    using analyze_empty_url_no_fetch [of "[''url'' \<mapsto> JStr '' '']"] 1
      analyze_empty_url_no_fetch [of Map.empty] 2
    by blast
qed

end
